theory Spec2Isabelle
  imports Complex_Main "HOL-Library.List_Lexorder" "HOL-Library.Char_ord"
begin


section \<open>Data model (src/models/news\_item.py)\<close>

text \<open>
  Values decoded by \<^verbatim>\<open>json.loads\<close>. A finite float is kept by its exact rational
  value (Python compares an int with a float exactly). \<open>JObj\<close> holds the pairs of an
  object in document order; the decoder keeps the last binding of a repeated key.
\<close>

datatype json =
    JNull
  | JBool bool
  | JInt int
  | JFloat rat
  | JStr string
  | JArr "json list"
  | JObj "(string \<times> json) list"

datatype Importance = CRITICAL | HIGH | MEDIUM | LOW

datatype Category =
  RELEASE | FEATURE | UPDATE | BUGFIX | SECURITY | DOCUMENTATION | ANNOUNCEMENT | OTHER

text \<open>
  \<^verbatim>\<open>NewsItem\<close>. The type \<open>'d\<close> stands for \<^verbatim>\<open>datetime\<close>. The fields that the
  summarizer assigns straight from a decoded response (\<open>summary_ja\<close>, \<open>summary_en\<close>,
  \<open>tags\<close>) hold a JSON value, since the source stores whatever the response carries;
  their defaults \<^verbatim>\<open>""\<close> and \<^verbatim>\<open>[]\<close> are \<open>JStr []\<close> and \<open>JArr []\<close>.
\<close>

record 'd NewsItem =
  title :: string
  url :: string
  tool_name :: string
  source :: string
  published_at :: "'d option"
  content :: string
  summary_ja :: json
  summary_en :: json
  importance :: Importance
  category :: Category
  tags :: json
  raw_data :: json

record ToolConfig =
  name :: string
  vendor :: string
  keywords_list :: "string list"
  search_queries :: "string list"
  official_links :: "string list"

datatype py_exn = KeyError | TypeError | ValueError | RequestError

section \<open>Collector (src/collector/gemini\_search.py)\<close>

text \<open>
  \<^verbatim>\<open>_search_and_parse(query, tool_name, date_filter, max_results)\<close> asks the external
  search service and catches every exception itself, so it always returns a list. It is
  a parameter of the model: a function of the state \<open>'w\<close> of the outside world (the
  service, the clock behind \<^verbatim>\<open>date_filter\<close>) and of the arguments, returning the
  parsed items and the next state of the world.
\<close>

type_synonym ('w, 'd) search_and_parse =
  "'w \<Rightarrow> string \<Rightarrow> string \<Rightarrow> int \<Rightarrow> 'd NewsItem list \<times> 'w"

text \<open>The loop over \<^verbatim>\<open>tool_config.search_queries\<close>, extending \<^verbatim>\<open>news_items\<close>.\<close>

fun query_loop ::
  "('w, 'd) search_and_parse \<Rightarrow> string \<Rightarrow> int \<Rightarrow> string list \<Rightarrow> 'w \<Rightarrow> 'd NewsItem list
    \<Rightarrow> 'd NewsItem list \<times> 'w" where
  "query_loop sp tn max_results [] w news_items = (news_items, w)"
| "query_loop sp tn max_results (query # qs) w news_items =
     (case sp w query tn max_results of
        (items, w') \<Rightarrow> query_loop sp tn max_results qs w' (news_items @ items))"

text \<open>The deduplication loop with its \<^verbatim>\<open>seen_urls\<close> set and \<^verbatim>\<open>unique_items\<close> list.\<close>

fun dedup_loop :: "'d NewsItem list \<Rightarrow> string set \<Rightarrow> 'd NewsItem list \<Rightarrow> 'd NewsItem list" where
  "dedup_loop [] seen_urls unique_items = unique_items"
| "dedup_loop (item # rest) seen_urls unique_items =
     (if url item \<notin> seen_urls
      then dedup_loop rest (insert (url item) seen_urls) (unique_items @ [item])
      else dedup_loop rest seen_urls unique_items)"

text \<open>
  Python's slice \<^verbatim>\<open>xs[:n]\<close>: a negative \<open>n\<close> counts from the end, and both ends
  are clamped to the list.
\<close>

definition py_slice_to :: "int \<Rightarrow> 'a list \<Rightarrow> 'a list" where
  "py_slice_to n xs =
     (if 0 \<le> n then take (nat n) xs else take (nat (int (length xs) + n)) xs)"

definition search_tool_news ::
  "('w, 'd) search_and_parse \<Rightarrow> 'w \<Rightarrow> ToolConfig \<Rightarrow> int \<Rightarrow> 'd NewsItem list \<times> 'w" where
  "search_tool_news sp w tool_config max_results =
     (case query_loop sp (name tool_config) max_results (search_queries tool_config) w [] of
        (news_items, w') \<Rightarrow> (py_slice_to max_results (dedup_loop news_items {} []), w'))"

text \<open>
  The constructor of \<^verbatim>\<open>GeminiSearchCollector\<close>: \<^verbatim>\<open>api_key or os.environ.get(...)\<close>,
  and \<^verbatim>\<open>ValueError\<close> when the result is \<^verbatim>\<open>None\<close> or empty.
\<close>

definition resolve_api_key :: "string option \<Rightarrow> string option \<Rightarrow> py_exn + string" where
  "resolve_api_key api_key env_key =
     (let k = (case api_key of Some s \<Rightarrow> (if s \<noteq> [] then Some s else env_key) | None \<Rightarrow> env_key)
      in case k of None \<Rightarrow> Inl ValueError
         | Some s \<Rightarrow> (if s = [] then Inl ValueError else Inr s))"

fun collect_loop ::
  "('w, 'd) search_and_parse \<Rightarrow> int \<Rightarrow> ToolConfig list \<Rightarrow> 'w \<Rightarrow> 'd NewsItem list
    \<Rightarrow> 'd NewsItem list \<times> 'w" where
  "collect_loop sp max_results_per_tool [] w all_news = (all_news, w)"
| "collect_loop sp max_results_per_tool (config # cs) w all_news =
     (case search_tool_news sp w config max_results_per_tool of
        (news, w') \<Rightarrow> collect_loop sp max_results_per_tool cs w' (all_news @ news))"

definition collect_all_news ::
  "('w, 'd) search_and_parse \<Rightarrow> 'w \<Rightarrow> string option \<Rightarrow> string option \<Rightarrow> ToolConfig list \<Rightarrow> int
    \<Rightarrow> py_exn + ('d NewsItem list \<times> 'w)" where
  "collect_all_news sp w api_key env_key tool_configs max_results_per_tool =
     (case resolve_api_key api_key env_key of
        Inl e \<Rightarrow> Inl e
      | Inr k \<Rightarrow> Inr (collect_loop sp max_results_per_tool tool_configs w []))"

section \<open>Summarizer (src/summarizer/claude\_summarizer.py)\<close>

text \<open>
  What \<^verbatim>\<open>_process_batch\<close> gets from the summarization service for one batch: either the
  request (or reading \<^verbatim>\<open>response.content[0].text\<close>) raises, or there is a response
  text. Of the text the model keeps what \<^verbatim>\<open>json.loads\<close> makes of the extracted JSON
  string: \<open>None\<close> when it raises \<^verbatim>\<open>JSONDecodeError\<close>, the decoded value otherwise.
\<close>

datatype response = RequestFailed | ResponseText "json option"

type_synonym ('w, 'd) summarize_request = "'w \<Rightarrow> 'd NewsItem list \<Rightarrow> response \<times> 'w"

text \<open>Lookup in a decoded object: the last binding of a key is the one the dict holds.\<close>

definition obj_get :: "(string \<times> json) list \<Rightarrow> string \<Rightarrow> json option" where
  "obj_get kvs k = map_of (rev kvs) k"

text \<open>\<^verbatim>\<open>d.get(key, default)\<close> on a dict.\<close>

definition dict_get :: "(string \<times> json) list \<Rightarrow> string \<Rightarrow> json \<Rightarrow> json" where
  "dict_get kvs k dflt = (case obj_get kvs k of Some v \<Rightarrow> v | None \<Rightarrow> dflt)"

text \<open>
  \<^verbatim>\<open>r["id"]\<close>: \<^verbatim>\<open>KeyError\<close> on a dict without the key, \<^verbatim>\<open>TypeError\<close> on anything
  that is not a dict. The result is the key together with the dict.
\<close>

fun subscript_id :: "json \<Rightarrow> py_exn + (json \<times> (string \<times> json) list)" where
  "subscript_id (JObj kvs) =
     (case obj_get kvs ''id'' of None \<Rightarrow> Inl KeyError | Some v \<Rightarrow> Inr (v, kvs))"
| "subscript_id _ = Inl TypeError"

text \<open>Lists and dicts are unhashable and raise \<^verbatim>\<open>TypeError\<close> as dict keys.\<close>

fun hashable :: "json \<Rightarrow> bool" where
  "hashable (JArr _) = False"
| "hashable (JObj _) = False"
| "hashable _ = True"

text \<open>
  \<^verbatim>\<open>result_map = {r["id"]: r for r in results}\<close>, kept as the list of its assignments
  in order; a later assignment to an equal key replaces the value.
\<close>

fun build_result_map :: "json list \<Rightarrow> py_exn + (json \<times> (string \<times> json) list) list" where
  "build_result_map [] = Inr []"
| "build_result_map (r # rs) =
     (case subscript_id r of
        Inl e \<Rightarrow> Inl e
      | Inr (k, kvs) \<Rightarrow>
          (if \<not> hashable k then Inl TypeError
           else (case build_result_map rs of
                   Inl e \<Rightarrow> Inl e
                 | Inr m \<Rightarrow> Inr ((k, kvs) # m))))"

text \<open>
  Python's \<^verbatim>\<open>key == idx\<close> for the integer index \<open>idx\<close> of \<^verbatim>\<open>enumerate\<close>: an int, a
  float of the same value, and \<^verbatim>\<open>True\<close>/\<^verbatim>\<open>False\<close> as 1/0 are equal to it (and hash
  alike).
\<close>

fun key_eq_index :: "json \<Rightarrow> nat \<Rightarrow> bool" where
  "key_eq_index (JInt k) idx = (k = int idx)"
| "key_eq_index (JFloat q) idx = (q = of_nat idx)"
| "key_eq_index (JBool b) idx = ((if b then 1 else 0) = idx)"
| "key_eq_index _ idx = False"

text \<open>\<^verbatim>\<open>idx in result_map\<close> and \<^verbatim>\<open>result_map[idx]\<close>: the last assignment to a key equal to \<open>idx\<close>.\<close>

definition lookup_index ::
  "(json \<times> (string \<times> json) list) list \<Rightarrow> nat \<Rightarrow> (string \<times> json) list option" where
  "lookup_index m idx =
     (case filter (\<lambda>(k, r). key_eq_index k idx) m of
        [] \<Rightarrow> None
      | e # es \<Rightarrow> Some (snd (last (e # es))))"

text \<open>\<^verbatim>\<open>Importance(value)\<close> and \<^verbatim>\<open>Category(value)\<close>: \<open>None\<close> stands for \<^verbatim>\<open>ValueError\<close>.\<close>

fun Importance_of :: "json \<Rightarrow> Importance option" where
  "Importance_of (JStr s) =
     (if s = ''critical'' then Some CRITICAL
      else if s = ''high'' then Some HIGH
      else if s = ''medium'' then Some MEDIUM
      else if s = ''low'' then Some LOW
      else None)"
| "Importance_of _ = None"

fun Category_of :: "json \<Rightarrow> Category option" where
  "Category_of (JStr s) =
     (if s = ''release'' then Some RELEASE
      else if s = ''feature'' then Some FEATURE
      else if s = ''update'' then Some UPDATE
      else if s = ''bugfix'' then Some BUGFIX
      else if s = ''security'' then Some SECURITY
      else if s = ''documentation'' then Some DOCUMENTATION
      else if s = ''announcement'' then Some ANNOUNCEMENT
      else if s = ''other'' then Some OTHER
      else None)"
| "Category_of _ = None"

text \<open>
  The five assignments of the merge for one item, in source order. The item is changed in
  place, so when an enum constructor raises, the assignments made before it stay: the
  result is the exception (if any) and the item as it is then.
\<close>

definition merge_item :: "(string \<times> json) list \<Rightarrow> 'd NewsItem \<Rightarrow> py_exn option \<times> 'd NewsItem" where
  "merge_item r item =
     (let item1 = item\<lparr>summary_ja := dict_get r ''summary_ja'' (JStr [])\<rparr>;
          item2 = item1\<lparr>summary_en := dict_get r ''summary_en'' (JStr [])\<rparr>
      in case Importance_of (dict_get r ''importance'' (JStr ''medium'')) of
           None \<Rightarrow> (Some ValueError, item2)
         | Some imp \<Rightarrow>
             (let item3 = item2\<lparr>importance := imp\<rparr>
              in case Category_of (dict_get r ''category'' (JStr ''other'')) of
                   None \<Rightarrow> (Some ValueError, item3)
                 | Some c \<Rightarrow>
                     (None, item3\<lparr>category := c, tags := dict_get r ''tags'' (JArr [])\<rparr>)))"

text \<open>
  \<^verbatim>\<open>for idx, item in enumerate(original_items)\<close>. The items of a batch are distinct
  objects (the collector builds each one anew), so the in-place update of the item at
  \<open>idx\<close> is the update of that position of the list.
\<close>

fun merge_loop ::
  "(json \<times> (string \<times> json) list) list \<Rightarrow> nat \<Rightarrow> 'd NewsItem list
    \<Rightarrow> py_exn option \<times> 'd NewsItem list" where
  "merge_loop result_map idx [] = (None, [])"
| "merge_loop result_map idx (item # rest) =
     (case lookup_index result_map idx of
        None \<Rightarrow>
          (case merge_loop result_map (Suc idx) rest of (e, rest') \<Rightarrow> (e, item # rest'))
      | Some r \<Rightarrow>
          (case merge_item r item of
             (Some e, item') \<Rightarrow> (Some e, item' # rest)
           | (None, item') \<Rightarrow>
               (case merge_loop result_map (Suc idx) rest of
                  (e, rest') \<Rightarrow> (e, item' # rest'))))"

text \<open>
  \<^verbatim>\<open>_parse_response\<close>, from the decoded text on; a decoded value that is not a list
  is wrapped in one. The first component is the exception that leaves the function
  (\<open>None\<close>: it returns \<^verbatim>\<open>original_items\<close>), the second the items as the function
  leaves them.
\<close>

definition as_results :: "json \<Rightarrow> json list" where
  "as_results j = (case j of JArr rs \<Rightarrow> rs | _ \<Rightarrow> [j])"

definition parse_response ::
  "json option \<Rightarrow> 'd NewsItem list \<Rightarrow> py_exn option \<times> 'd NewsItem list" where
  "parse_response decoded original_items =
     (case decoded of
        None \<Rightarrow> (None, original_items)
      | Some j \<Rightarrow>
          (case build_result_map (as_results j) of
             Inl e \<Rightarrow> (Some e, original_items)
           | Inr result_map \<Rightarrow> merge_loop result_map 0 original_items))"

text \<open>
  \<^verbatim>\<open>_process_batch\<close>: what it returns for a response. Both the \<^verbatim>\<open>try\<close> body and
  the handler \<^verbatim>\<open>except Exception\<close> return \<^verbatim>\<open>news_items\<close>, the same objects that
  \<^verbatim>\<open>_parse_response\<close> was updating, so the result is the second component.
\<close>

definition batch_result :: "response \<Rightarrow> 'd NewsItem list \<Rightarrow> 'd NewsItem list" where
  "batch_result resp news_items =
     (case resp of
        RequestFailed \<Rightarrow> news_items
      | ResponseText decoded \<Rightarrow> snd (parse_response decoded news_items))"

definition process_batch ::
  "('w, 'd) summarize_request \<Rightarrow> 'w \<Rightarrow> 'd NewsItem list \<Rightarrow> 'd NewsItem list \<times> 'w" where
  "process_batch request w news_items =
     (case request w news_items of (resp, w') \<Rightarrow> (batch_result resp news_items, w'))"

text \<open>\<^verbatim>\<open>for i in range(0, len(news_items), batch_size)\<close> with \<^verbatim>\<open>batch_size = 10\<close>.\<close>

function batch_loop ::
  "('w, 'd) summarize_request \<Rightarrow> 'd NewsItem list \<Rightarrow> nat \<Rightarrow> 'w \<Rightarrow> 'd NewsItem list
    \<Rightarrow> 'd NewsItem list \<times> 'w" where
  "batch_loop request news_items i w processed_items =
     (if i < length news_items
      then (case process_batch request w (take 10 (drop i news_items)) of
              (processed, w') \<Rightarrow>
                batch_loop request news_items (i + 10) w' (processed_items @ processed))
      else (processed_items, w))"
  by pat_completeness auto
termination
  by (relation "measure (\<lambda>(request, news_items, i, w, processed_items). length news_items - i)")
     auto

definition summarize_and_categorize ::
  "('w, 'd) summarize_request \<Rightarrow> 'w \<Rightarrow> 'd NewsItem list \<Rightarrow> 'd NewsItem list \<times> 'w" where
  "summarize_and_categorize request w news_items =
     (if news_items = [] then ([], w) else batch_loop request news_items 0 w [])"

section \<open>Dictionary form of an item (src/models/news\_item.py)\<close>

fun Importance_value :: "Importance \<Rightarrow> string" where
  "Importance_value CRITICAL = ''critical''"
| "Importance_value HIGH = ''high''"
| "Importance_value MEDIUM = ''medium''"
| "Importance_value LOW = ''low''"

fun Category_value :: "Category \<Rightarrow> string" where
  "Category_value RELEASE = ''release''"
| "Category_value FEATURE = ''feature''"
| "Category_value UPDATE = ''update''"
| "Category_value BUGFIX = ''bugfix''"
| "Category_value SECURITY = ''security''"
| "Category_value DOCUMENTATION = ''documentation''"
| "Category_value ANNOUNCEMENT = ''announcement''"
| "Category_value OTHER = ''other''"

text \<open>
  \<^verbatim>\<open>to_dict\<close>; \<open>isoformat\<close> is \<^verbatim>\<open>datetime.isoformat\<close>. A \<^verbatim>\<open>datetime\<close> is always
  true in a condition, so only \<^verbatim>\<open>None\<close> takes the \<^verbatim>\<open>else\<close> branch.
\<close>

definition to_dict :: "('d \<Rightarrow> string) \<Rightarrow> 'd NewsItem \<Rightarrow> (string \<times> json) list" where
  "to_dict isoformat self =
     [(''title'', JStr (title self)),
      (''url'', JStr (url self)),
      (''tool_name'', JStr (tool_name self)),
      (''source'', JStr (source self)),
      (''published_at'',
         (case published_at self of Some d \<Rightarrow> JStr (isoformat d) | None \<Rightarrow> JNull)),
      (''content'', JStr (content self)),
      (''summary_ja'', summary_ja self),
      (''summary_en'', summary_en self),
      (''importance'', JStr (Importance_value (importance self))),
      (''category'', JStr (Category_value (category self))),
      (''tags'', tags self)]"

text \<open>The truth value of a decoded value in a condition.\<close>

fun truthy :: "json \<Rightarrow> bool" where
  "truthy JNull = False"
| "truthy (JBool b) = b"
| "truthy (JInt k) = (k \<noteq> 0)"
| "truthy (JFloat q) = (q \<noteq> 0)"
| "truthy (JStr s) = (s \<noteq> [])"
| "truthy (JArr xs) = (xs \<noteq> [])"
| "truthy (JObj kvs) = (kvs \<noteq> [])"

definition bind_exn :: "'e + 'a \<Rightarrow> ('a \<Rightarrow> 'e + 'b) \<Rightarrow> 'e + 'b" where
  "bind_exn x f = (case x of Inl e \<Rightarrow> Inl e | Inr a \<Rightarrow> f a)"

text \<open>\<^verbatim>\<open>data[key]\<close>.\<close>

definition subscript :: "(string \<times> json) list \<Rightarrow> string \<Rightarrow> py_exn + json" where
  "subscript data k = (case obj_get data k of None \<Rightarrow> Inl KeyError | Some v \<Rightarrow> Inr v)"

text \<open>
  The fields \<open>title\<close>, \<open>url\<close>, \<open>tool_name\<close>, \<open>source\<close> and \<open>content\<close> are strings in
  the record. The source stores a value of any type there without a check; the record
  cannot hold such an object, and the model reports \<open>NotAStr\<close> (which is not a Python
  exception) instead.
\<close>

datatype from_dict_error = Raised py_exn | NotAStr

fun as_str :: "json \<Rightarrow> from_dict_error + string" where
  "as_str (JStr s) = Inr s"
| "as_str _ = Inl NotAStr"

definition raised :: "py_exn + 'a \<Rightarrow> from_dict_error + 'a" where
  "raised x = (case x of Inl e \<Rightarrow> Inl (Raised e) | Inr a \<Rightarrow> Inr a)"

definition enum_of :: "'a option \<Rightarrow> from_dict_error + 'a" where
  "enum_of x = (case x of None \<Rightarrow> Inl (Raised ValueError) | Some a \<Rightarrow> Inr a)"

text \<open>
  \<^verbatim>\<open>from_dict\<close>; \<open>fromisoformat\<close> is \<^verbatim>\<open>datetime.fromisoformat\<close> on a string (it
  raises \<^verbatim>\<open>ValueError\<close> on a malformed one, and \<^verbatim>\<open>TypeError\<close> on a value that is
  not a string). The arguments of the constructor call are evaluated in source order.
  \<^verbatim>\<open>raw_data\<close> takes its default, the empty dict.
\<close>

definition from_dict ::
  "(string \<Rightarrow> py_exn + 'd) \<Rightarrow> (string \<times> json) list \<Rightarrow> from_dict_error + 'd NewsItem" where
  "from_dict fromisoformat data =
     bind_exn
       (case obj_get data ''published_at'' of
          None \<Rightarrow> Inr None
        | Some v \<Rightarrow>
            (if truthy v
             then (case v of
                     JStr s \<Rightarrow>
                       (case fromisoformat s of
                          Inl e \<Rightarrow> Inl (Raised e)
                        | Inr d \<Rightarrow> Inr (Some d))
                   | _ \<Rightarrow> Inl (Raised TypeError))
             else Inr None))
       (\<lambda>published_at'.
     bind_exn (bind_exn (raised (subscript data ''title'')) as_str) (\<lambda>title'.
     bind_exn (bind_exn (raised (subscript data ''url'')) as_str) (\<lambda>url'.
     bind_exn (bind_exn (raised (subscript data ''tool_name'')) as_str) (\<lambda>tool_name'.
     bind_exn (bind_exn (raised (subscript data ''source'')) as_str) (\<lambda>source'.
     bind_exn (as_str (dict_get data ''content'' (JStr []))) (\<lambda>content'.
     bind_exn (enum_of (Importance_of (dict_get data ''importance'' (JStr ''medium''))))
       (\<lambda>importance'.
     bind_exn (enum_of (Category_of (dict_get data ''category'' (JStr ''other''))))
       (\<lambda>category'.
       Inr \<lparr>title = title', url = url', tool_name = tool_name', source = source',
            published_at = published_at', content = content',
            summary_ja = dict_get data ''summary_ja'' (JStr []),
            summary_en = dict_get data ''summary_en'' (JStr []),
            importance = importance', category = category',
            tags = dict_get data ''tags'' (JArr []),
            raw_data = JObj []\<rparr>))))))))"

section \<open>Report renderer (src/publisher/html\_generator.py)\<close>

text \<open>
  \<^verbatim>\<open>news_by_tool[item.tool_name].append(item)\<close> on a \<^verbatim>\<open>defaultdict(list)\<close>. A dict
  keeps its keys in the order of their first insertion, so it is the list of its
  (key, value) pairs in that order.
\<close>

fun group_append :: "(string \<times> 'a list) list \<Rightarrow> string \<Rightarrow> 'a \<Rightarrow> (string \<times> 'a list) list" where
  "group_append [] k x = [(k, [x])]"
| "group_append ((k', xs) # rest) k x =
     (if k' = k then (k', xs @ [x]) # rest else (k', xs) # group_append rest k x)"

fun group_loop ::
  "'d NewsItem list \<Rightarrow> (string \<times> 'd NewsItem list) list \<Rightarrow> (string \<times> 'd NewsItem list) list" where
  "group_loop [] news_by_tool = news_by_tool"
| "group_loop (item # rest) news_by_tool =
     group_loop rest (group_append news_by_tool (tool_name item) item)"

definition news_by_tool :: "'d NewsItem list \<Rightarrow> (string \<times> 'd NewsItem list) list" where
  "news_by_tool news_items = group_loop news_items []"

definition total_count :: "'d NewsItem list \<Rightarrow> nat" where
  "total_count news_items = length news_items"

definition critical_count :: "'d NewsItem list \<Rightarrow> nat" where
  "critical_count news_items =
     length (filter (\<lambda>item. importance item = CRITICAL \<or> importance item = HIGH) news_items)"

definition tools_count :: "'d NewsItem list \<Rightarrow> nat" where
  "tools_count news_items = length (news_by_tool news_items)"

text \<open>
  \<^verbatim>\<open>strftime("%Y-%m-%d")\<close> of the report date, for a year of four digits, and the name
  \<^verbatim>\<open>{date_str}_{lang}.html\<close> of a report file.
\<close>

definition digit :: "nat \<Rightarrow> char" where
  "digit n = char_of (48 + n mod 10)"

definition strftime_ymd :: "nat \<times> nat \<times> nat \<Rightarrow> string" where
  "strftime_ymd dt =
     (case dt of (y, m, d) \<Rightarrow>
        [digit (y div 1000), digit (y div 100), digit (y div 10), digit y] @ ''-'' @
        [digit (m div 10), digit m] @ ''-'' @ [digit (d div 10), digit d])"

definition report_filename :: "string \<Rightarrow> string \<Rightarrow> string" where
  "report_filename date_str lang = date_str @ ''_'' @ lang @ ''.html''"

text \<open>\<^verbatim>\<open>output_dir.glob("*_ja.html")\<close> over the names found in the directory.\<close>

definition ends_with :: "string \<Rightarrow> string \<Rightarrow> bool" where
  "ends_with s suf = (length suf \<le> length s \<and> drop (length s - length suf) s = suf)"

definition glob_ja :: "string list \<Rightarrow> string list" where
  "glob_ja names = filter (\<lambda>n. ends_with n ''_ja.html'') names"

text \<open>
  \<^verbatim>\<open>Path.stem\<close>: the name up to its last dot, unless that dot is the first or the last
  character of the name.
\<close>

definition stem :: "string \<Rightarrow> string" where
  "stem n =
     (let ext = takeWhile (\<lambda>c. c \<noteq> CHR ''.'') (rev n)
      in if length ext < length n \<and> ext \<noteq> [] \<and> Suc (length ext) < length n
         then take (length n - length ext - 1) n
         else n)"

text \<open>\<^verbatim>\<open>s.replace("_ja", "")\<close>: every occurrence, from the left, without overlap.\<close>

fun replace_ja :: "string \<Rightarrow> string" where
  "replace_ja (a # b # c # rest) =
     (if [a, b, c] = ''_ja'' then replace_ja rest else a # replace_ja (b # c # rest))"
| "replace_ja s = s"

record index_entry =
  date :: string
  ja_url :: string
  en_url :: string

definition index_entry_of :: "string \<Rightarrow> index_entry" where
  "index_entry_of file =
     (let date_str = replace_ja (stem file)
      in \<lparr>date = date_str,
          ja_url = ''reports/'' @ date_str @ ''_ja.html'',
          en_url = ''reports/'' @ date_str @ ''_en.html''\<rparr>)"

text \<open>
  \<^verbatim>\<open>_update_index\<close>: the list \<^verbatim>\<open>reports[:30]\<close> handed to \<^verbatim>\<open>_generate_index_html\<close>.
  The paths share their directory, so \<^verbatim>\<open>sorted(..., reverse=True)\<close> orders them by
  name, in the order of strings.
\<close>

definition update_index :: "string list \<Rightarrow> index_entry list" where
  "update_index names = take 30 (map index_entry_of (rev (sort (glob_ja names))))"

section \<open>Notions used in the statements\<close>

text \<open>
  The items that each call of \<^verbatim>\<open>_search_and_parse\<close> returns during one run of
  \<^verbatim>\<open>search_tool_news\<close>, one list per query, in query order.
\<close>

fun query_results ::
  "('w, 'd) search_and_parse \<Rightarrow> string \<Rightarrow> int \<Rightarrow> string list \<Rightarrow> 'w \<Rightarrow> 'd NewsItem list list" where
  "query_results sp tn max_results [] w = []"
| "query_results sp tn max_results (query # qs) w =
     (case sp w query tn max_results of
        (items, w') \<Rightarrow> items # query_results sp tn max_results qs w')"

text \<open>
  The elements of a list whose key \<open>f\<close> does not occur at an earlier position, in their
  order in the list.
\<close>

definition keep_first :: "('a \<Rightarrow> 'k) \<Rightarrow> 'a list \<Rightarrow> 'a list" where
  "keep_first f xs =
     map (\<lambda>i. xs ! i) (filter (\<lambda>i. f (xs ! i) \<notin> f ` set (take i xs)) [0..<length xs])"

text \<open>
  A stand-in for the search service at concrete inputs: the state of the world is the list
  of the results it still has to give, one per call.
\<close>

definition scripted_search :: "('d NewsItem list list, 'd) search_and_parse" where
  "scripted_search w query tn max_results = (case w of [] \<Rightarrow> ([], []) | r # rs \<Rightarrow> (r, rs))"

text \<open>
  The \<^verbatim>\<open>NewsItem\<close> that the collector's \<^verbatim>\<open>_parse_response\<close> builds from one parsed
  entry: \<^verbatim>\<open>source\<close> is \<^verbatim>\<open>"gemini_search"\<close>, the other fields take the defaults of the
  dataclass.
\<close>

definition parsed_item ::
  "string \<Rightarrow> string \<Rightarrow> string \<Rightarrow> 'd option \<Rightarrow> string \<Rightarrow> json \<Rightarrow> 'd NewsItem" where
  "parsed_item title' url' tool_name' published_at' snippet item =
     \<lparr>title = title', url = url', tool_name = tool_name', source = ''gemini_search'',
      published_at = published_at', content = snippet,
      summary_ja = JStr [], summary_en = JStr [], importance = MEDIUM, category = OTHER,
      tags = JArr [], raw_data = item\<rparr>"

text \<open>The list that \<^verbatim>\<open>search_tool_news\<close> returns for each tool during \<^verbatim>\<open>collect_all_news\<close>.\<close>

fun tool_results ::
  "('w, 'd) search_and_parse \<Rightarrow> int \<Rightarrow> ToolConfig list \<Rightarrow> 'w \<Rightarrow> 'd NewsItem list list" where
  "tool_results sp max_results_per_tool [] w = []"
| "tool_results sp max_results_per_tool (config # cs) w =
     (case search_tool_news sp w config max_results_per_tool of
        (news, w') \<Rightarrow> news # tool_results sp max_results_per_tool cs w')"

text \<open>
  A result whose \<^verbatim>\<open>"id"\<close> is equal, in Python's sense, to the batch index \<open>i\<close>, and the
  last such result of a result list.
\<close>

fun result_has_id :: "json \<Rightarrow> nat \<Rightarrow> bool" where
  "result_has_id (JObj kvs) i =
     (case obj_get kvs ''id'' of Some k \<Rightarrow> key_eq_index k i | None \<Rightarrow> False)"
| "result_has_id _ i = False"

fun last_result_with_id :: "json list \<Rightarrow> nat \<Rightarrow> (string \<times> json) list option" where
  "last_result_with_id [] i = None"
| "last_result_with_id (r # rs) i =
     (case last_result_with_id rs i of
        Some kvs \<Rightarrow> Some kvs
      | None \<Rightarrow> (case r of JObj kvs \<Rightarrow> (if result_has_id r i then Some kvs else None)
                | _ \<Rightarrow> None))"

text \<open>
  An item with its five enrichment fields overwritten from the result \<open>r\<close>, whose
  importance and category are the members \<open>imp\<close> and \<open>c\<close>; a field that \<open>r\<close> lacks
  takes the default of \<^verbatim>\<open>r.get\<close>.
\<close>

definition enriched ::
  "(string \<times> json) list \<Rightarrow> Importance \<Rightarrow> Category \<Rightarrow> 'd NewsItem \<Rightarrow> 'd NewsItem" where
  "enriched r imp c item =
     item\<lparr>summary_ja := dict_get r ''summary_ja'' (JStr []),
          summary_en := dict_get r ''summary_en'' (JStr []),
          importance := imp, category := c,
          tags := dict_get r ''tags'' (JArr [])\<rparr>"

text \<open>The fields of an item that the summarizer has no assignment to.\<close>

definition provenance ::
  "'d NewsItem \<Rightarrow> string \<times> string \<times> string \<times> string \<times> 'd option \<times> string \<times> json" where
  "provenance item =
     (title item, url item, tool_name item, source item, published_at item, content item,
      raw_data item)"

text \<open>
  A stand-in for the summarization service at concrete inputs: the state of the world is
  the list of the responses it still has to give, one per batch.
\<close>

definition scripted_request :: "(response list, 'd) summarize_request" where
  "scripted_request w news_items =
     (case w of [] \<Rightarrow> (RequestFailed, []) | r # rs \<Rightarrow> (r, rs))"

text \<open>
  The batches that \<^verbatim>\<open>summarize_and_categorize\<close> hands to \<^verbatim>\<open>_process_batch\<close> from
  position \<open>i\<close> on, each with the response that the service gives for it.
\<close>

function batch_log ::
  "('w, 'd) summarize_request \<Rightarrow> 'd NewsItem list \<Rightarrow> nat \<Rightarrow> 'w
    \<Rightarrow> ('d NewsItem list \<times> response) list" where
  "batch_log request news_items i w =
     (if i < length news_items
      then (case request w (take 10 (drop i news_items)) of
              (resp, w') \<Rightarrow>
                (take 10 (drop i news_items), resp) # batch_log request news_items (i + 10) w')
      else [])"
  by pat_completeness auto
termination
  by (relation "measure (\<lambda>(request, news_items, i, w). length news_items - i)") auto

declare batch_loop.simps [simp del]
declare batch_log.simps [simp del]

text \<open>Items for concrete runs: \<open>n\<close> parsed items with pairwise distinct urls.\<close>

definition sample_items :: "nat \<Rightarrow> unit NewsItem list" where
  "sample_items n =
     map (\<lambda>k. parsed_item ''news'' (replicate k (CHR ''a'')) ''tool'' None [] (JObj [])) [0..<n]"

text \<open>
  One group per tool name, in the order in which the names first occur in the list, each
  holding the items of that name in their order in the list.
\<close>

definition groups_of :: "'d NewsItem list \<Rightarrow> (string \<times> 'd NewsItem list) list" where
  "groups_of items =
     map (\<lambda>k. (k, filter (\<lambda>item. tool_name item = k) items))
       (map tool_name (keep_first tool_name items))"

section \<open>Collector: deduplication and truncation\<close>

lemma query_loop_concat:
  "fst (query_loop sp tn mr qs w acc) = acc @ concat (query_results sp tn mr qs w)"
  by (induction qs arbitrary: w acc) (auto split: prod.splits)

lemma dedup_loop_index:
  "dedup_loop xs seen acc =
     acc @ map (\<lambda>i. xs ! i)
             (filter (\<lambda>i. url (xs ! i) \<notin> seen \<union> url ` set (take i xs)) [0..<length xs])"
proof (induction xs arbitrary: seen acc)
  case Nil
  show ?case by simp
next
  case (Cons x xs)
  have upt: "[0..<length (x # xs)] = 0 # map Suc [0..<length xs]"
    by (simp add: upt_conv_Cons map_Suc_upt del: upt_Suc)
  show ?case
  proof (cases "url x \<in> seen")
    case True
    then have ins: "insert (url x) seen = seen" by auto
    show ?thesis using True
      apply (simp only: upt dedup_loop.simps Cons.IH)
      apply (simp add: filter_map comp_def)
      apply (rule arg_cong[where f="map ((!) xs)"])
      apply (rule filter_cong)
       apply auto
      done
  next
    case False
    show ?thesis using False
      apply (simp only: upt dedup_loop.simps Cons.IH)
      apply (simp add: filter_map comp_def)
      apply (rule arg_cong[where f="map ((!) xs)"])
      apply (rule filter_cong)
       apply auto
      done
  qed
qed

lemma dedup_loop_keep_first: "dedup_loop xs {} [] = keep_first url xs"
  by (simp add: dedup_loop_index keep_first_def)

lemma dedup_loop_distinct:
  "distinct (map url acc) \<Longrightarrow> url ` set acc \<subseteq> seen \<Longrightarrow>
   distinct (map url (dedup_loop xs seen acc))"
proof (induction xs arbitrary: seen acc)
  case Nil
  then show ?case by simp
next
  case (Cons x xs)
  show ?case
  proof (cases "url x \<in> seen")
    case True
    then show ?thesis using Cons.IH[OF Cons.prems] by simp
  next
    case False
    have "distinct (map url (acc @ [x]))" using False Cons.prems by auto
    moreover have "url ` set (acc @ [x]) \<subseteq> insert (url x) seen" using Cons.prems by auto
    ultimately show ?thesis using False Cons.IH by simp
  qed
qed

lemma py_slice_to_nonneg: "0 \<le> n \<Longrightarrow> py_slice_to n xs = take (nat n) xs"
  by (simp add: py_slice_to_def)

lemma py_slice_to_is_take: "\<exists>k. py_slice_to n xs = take k xs"
  by (auto simp: py_slice_to_def)

lemma search_tool_news_eq:
  "fst (search_tool_news sp w tc mr) =
     py_slice_to mr (keep_first url (concat (query_results sp (name tc) mr (search_queries tc) w)))"
proof -
  have "fst (query_loop sp (name tc) mr (search_queries tc) w []) =
          concat (query_results sp (name tc) mr (search_queries tc) w)"
    using query_loop_concat[of sp "name tc" mr "search_queries tc" w "[]"] by simp
  then show ?thesis
    by (cases "query_loop sp (name tc) mr (search_queries tc) w []")
       (simp add: search_tool_news_def dedup_loop_keep_first)
qed

lemma keep_first_distinct: "distinct (map url (keep_first url (xs :: 'd NewsItem list)))"
  using dedup_loop_distinct[of "[]" "{}" xs] by (simp add: dedup_loop_keep_first)

lemma search_tool_news_distinct: "distinct (map url (fst (search_tool_news sp w tc mr)))"
proof -
  obtain k where "py_slice_to mr (keep_first url (concat (query_results sp (name tc) mr (search_queries tc) w)))
      = take k (keep_first url (concat (query_results sp (name tc) mr (search_queries tc) w)))"
    using py_slice_to_is_take by blast
  then show ?thesis
    by (simp add: search_tool_news_eq take_map[symmetric] keep_first_distinct)
qed

lemma keep_first_same_url: "url a = url b \<Longrightarrow> keep_first url [a, b] = [a]"
  by (simp add: keep_first_def upt_rec)

text \<open>
  Claim C1. For every tool, search service and cap \<open>max_results \<ge> 0\<close>, the list that
  \<^verbatim>\<open>search_tool_news\<close> returns is made of the parsed items of all the tool's queries,
  taken in query order, without the items whose url is the url of an earlier item (the
  first occurrence stays, the order is kept), cut to its first \<open>max_results\<close> items. Two
  parsed items with the same url leave the first one only, whatever their titles; the
  returned list has at most \<open>max_results\<close> items and pairwise distinct urls.
\<close>

theorem search_tool_news_dedup:
  "let agg = concat (query_results sp (name tc) max_results (search_queries tc) w);
       r = fst (search_tool_news sp w tc max_results)
   in distinct (map url r)
      \<and> (0 \<le> max_results \<longrightarrow>
           r = take (nat max_results) (keep_first url agg)
           \<and> int (length r) \<le> max_results
           \<and> (\<forall>a b. agg = [a, b] \<and> url a = url b \<longrightarrow>
                 keep_first url agg = [a] \<and> r = take (nat max_results) [a]))"
proof -
  let ?agg = "concat (query_results sp (name tc) max_results (search_queries tc) w)"
  let ?r = "fst (search_tool_news sp w tc max_results)"
  have d: "distinct (map url ?r)" by (rule search_tool_news_distinct)
  have t: "0 \<le> max_results \<longrightarrow>
             ?r = take (nat max_results) (keep_first url ?agg) \<and> int (length ?r) \<le> max_results"
    by (auto simp: search_tool_news_eq py_slice_to_nonneg)
  have p: "0 \<le> max_results \<longrightarrow>
             (\<forall>a b. ?agg = [a, b] \<and> url a = url b \<longrightarrow>
                keep_first url ?agg = [a] \<and> ?r = take (nat max_results) [a])"
  proof (intro allI impI)
    fix a b
    assume m: "0 \<le> max_results" and h: "?agg = [a, b] \<and> url a = url b"
    then have k: "keep_first url ?agg = [a]" by (simp add: keep_first_same_url)
    have "?r = take (nat max_results) (keep_first url ?agg)" using t m by blast
    then show "keep_first url ?agg = [a] \<and> ?r = take (nat max_results) [a]"
      using k by simp
  qed
  show ?thesis unfolding Let_def using d t p by blast
qed

text \<open>
  Two queries; the second returns an item with the url of an item of the first query and
  another title, and the cap of 3 cuts the four distinct urls to three.
\<close>

theorem search_tool_news_dedup_witness:
  "(0::int) \<le> 3 \<and>
   fst (search_tool_news scripted_search
          [[parsed_item ''First title'' ''https://a'' ''tool'' (None :: unit option) [] (JObj []),
            parsed_item ''B'' ''https://b'' ''tool'' None [] (JObj [])],
           [parsed_item ''Second title'' ''https://a'' ''tool'' None [] (JObj []),
            parsed_item ''C'' ''https://c'' ''tool'' None [] (JObj []),
            parsed_item ''D'' ''https://d'' ''tool'' None [] (JObj [])]]
          \<lparr>name = ''tool'', vendor = ''v'', keywords_list = [], search_queries = [''q1'', ''q2''],
           official_links = []\<rparr> 3)
     = [parsed_item ''First title'' ''https://a'' ''tool'' None [] (JObj []),
        parsed_item ''B'' ''https://b'' ''tool'' None [] (JObj []),
        parsed_item ''C'' ''https://c'' ''tool'' None [] (JObj [])]"
  using search_tool_news_dedup[where sp = scripted_search and max_results = 3 and
      tc = "\<lparr>name = ''tool'', vendor = ''v'', keywords_list = [], search_queries = [''q1'', ''q2''],
           official_links = []\<rparr>"]
  by (simp add: search_tool_news_def scripted_search_def py_slice_to_def parsed_item_def)

lemma collect_loop_concat:
  "fst (collect_loop sp mr tcs w acc) = acc @ concat (tool_results sp mr tcs w)"
  by (induction tcs arbitrary: w acc) (auto split: prod.splits)

lemma tool_results_distinct: "p \<in> set (tool_results sp mr tcs w) \<Longrightarrow> distinct (map url p)"
proof (induction tcs arbitrary: w)
  case Nil
  then show ?case by simp
next
  case (Cons c cs)
  obtain news w' where s: "search_tool_news sp w c mr = (news, w')" by (cases "search_tool_news sp w c mr")
  have "distinct (map url news)" using search_tool_news_distinct[of sp w c mr] s by simp
  then show ?case using Cons s by auto
qed

text \<open>
  Claim C4, amended. The list that \<^verbatim>\<open>collect_all_news\<close> returns is the concatenation,
  in the order of the tool configurations, of the lists that \<^verbatim>\<open>search_tool_news\<close> returns
  for each tool, and within each of these lists the urls are pairwise distinct. Nothing
  removes a url that two tools share.
\<close>

theorem collect_all_news_per_tool_distinct:
  "collect_all_news sp w api_key env_key tcs mr = Inr (news, w') \<Longrightarrow>
     news = concat (tool_results sp mr tcs w)
     \<and> length (tool_results sp mr tcs w) = length tcs
     \<and> (\<forall>p \<in> set (tool_results sp mr tcs w). distinct (map url p))"
proof -
  assume h: "collect_all_news sp w api_key env_key tcs mr = Inr (news, w')"
  then have "collect_loop sp mr tcs w [] = (news, w')"
    by (auto simp: collect_all_news_def split: sum.splits)
  then have "news = concat (tool_results sp mr tcs w)"
    using collect_loop_concat[of sp mr tcs w "[]"] by simp
  moreover have "length (tool_results sp mr tcs w) = length tcs"
    by (induction tcs arbitrary: w) (auto split: prod.splits)
  ultimately show ?thesis by (auto intro: tool_results_distinct)
qed

theorem collect_all_news_per_tool_distinct_witness:
  "collect_all_news scripted_search
      [[parsed_item ''A'' ''https://a'' ''tool1'' (None :: unit option) [] (JObj []),
        parsed_item ''A again'' ''https://a'' ''tool1'' None [] (JObj [])],
       [parsed_item ''B'' ''https://b'' ''tool2'' None [] (JObj [])]]
      None (Some ''key'')
      [\<lparr>name = ''tool1'', vendor = ''v'', keywords_list = [], search_queries = [''q1''],
        official_links = []\<rparr>,
       \<lparr>name = ''tool2'', vendor = ''v'', keywords_list = [], search_queries = [''q2''],
        official_links = []\<rparr>] 10
    = Inr ([parsed_item ''A'' ''https://a'' ''tool1'' None [] (JObj []),
            parsed_item ''B'' ''https://b'' ''tool2'' None [] (JObj [])], [])
   \<and> distinct (map url [parsed_item ''A'' ''https://a'' ''tool1'' (None :: unit option) [] (JObj [])])
   \<and> distinct (map url [parsed_item ''B'' ''https://b'' ''tool2'' (None :: unit option) [] (JObj [])])"
proof -
  have run: "collect_all_news scripted_search
      [[parsed_item ''A'' ''https://a'' ''tool1'' (None :: unit option) [] (JObj []),
        parsed_item ''A again'' ''https://a'' ''tool1'' None [] (JObj [])],
       [parsed_item ''B'' ''https://b'' ''tool2'' None [] (JObj [])]]
      None (Some ''key'')
      [\<lparr>name = ''tool1'', vendor = ''v'', keywords_list = [], search_queries = [''q1''],
        official_links = []\<rparr>,
       \<lparr>name = ''tool2'', vendor = ''v'', keywords_list = [], search_queries = [''q2''],
        official_links = []\<rparr>] 10
    = Inr ([parsed_item ''A'' ''https://a'' ''tool1'' None [] (JObj []),
            parsed_item ''B'' ''https://b'' ''tool2'' None [] (JObj [])], [])"
    by (simp add: collect_all_news_def resolve_api_key_def search_tool_news_def
          scripted_search_def py_slice_to_def parsed_item_def)
  show ?thesis
    using collect_all_news_per_tool_distinct[OF run] run
    by (simp add: search_tool_news_def scripted_search_def py_slice_to_def parsed_item_def)
qed

text \<open>
  Two tools whose searches return the same url: \<^verbatim>\<open>collect_all_news\<close> returns both items.
\<close>

theorem collect_all_news_cross_tool_counterexample:
  "collect_all_news scripted_search
      [[parsed_item ''A'' ''https://same'' ''tool1'' (None :: unit option) [] (JObj [])],
       [parsed_item ''B'' ''https://same'' ''tool2'' None [] (JObj [])]]
      (Some ''key'') None
      [\<lparr>name = ''tool1'', vendor = ''v'', keywords_list = [], search_queries = [''q1''],
        official_links = []\<rparr>,
       \<lparr>name = ''tool2'', vendor = ''v'', keywords_list = [], search_queries = [''q2''],
        official_links = []\<rparr>] 10
    = Inr ([parsed_item ''A'' ''https://same'' ''tool1'' None [] (JObj []),
            parsed_item ''B'' ''https://same'' ''tool2'' None [] (JObj [])], [])
   \<and> \<not> distinct (map url
          [parsed_item ''A'' ''https://same'' ''tool1'' (None :: unit option) [] (JObj []),
           parsed_item ''B'' ''https://same'' ''tool2'' None [] (JObj [])])"
  by (simp add: collect_all_news_def resolve_api_key_def search_tool_news_def scripted_search_def
        py_slice_to_def parsed_item_def)

section \<open>The merge of the summarizer\<close>

lemma lookup_index_Nil: "lookup_index [] i = None"
  by (simp add: lookup_index_def)

lemma lookup_index_Cons:
  "lookup_index ((k, kvs) # m) i =
     (case lookup_index m i of
        Some x \<Rightarrow> Some x
      | None \<Rightarrow> (if key_eq_index k i then Some kvs else None))"
  by (cases "filter (\<lambda>(k, r). key_eq_index k i) m") (auto simp: lookup_index_def)

lemma build_result_map_lookup:
  "build_result_map rs = Inr m \<Longrightarrow> lookup_index m i = last_result_with_id rs i"
proof (induction rs arbitrary: m)
  case Nil
  then show ?case by (simp add: lookup_index_Nil)
next
  case (Cons r rs)
  from Cons.prems obtain k kvs m' where
    s: "subscript_id r = Inr (k, kvs)" and b: "build_result_map rs = Inr m'"
    and m: "m = (k, kvs) # m'"
    by (auto split: sum.splits prod.splits if_splits)
  from s have r: "r = JObj kvs" and id: "obj_get kvs ''id'' = Some k"
    by (cases r; auto split: option.splits)+
  show ?case
    using Cons.IH[OF b] by (auto simp: m lookup_index_Cons r id split: option.splits)
qed

lemma last_result_with_id_None:
  "last_result_with_id rs i = None \<longleftrightarrow> \<not> (\<exists>r \<in> set rs. result_has_id r i)"
proof (induction rs)
  case Nil
  show ?case by simp
next
  case (Cons r rs)
  show ?case using Cons.IH by (cases r) (auto split: option.splits)
qed

lemma merge_item_cases:
  "merge_item r item =
     (case Importance_of (dict_get r ''importance'' (JStr ''medium'')) of
        None \<Rightarrow> (Some ValueError,
                 item\<lparr>summary_ja := dict_get r ''summary_ja'' (JStr []),
                      summary_en := dict_get r ''summary_en'' (JStr [])\<rparr>)
      | Some imp \<Rightarrow>
          (case Category_of (dict_get r ''category'' (JStr ''other'')) of
             None \<Rightarrow> (Some ValueError,
                      item\<lparr>summary_ja := dict_get r ''summary_ja'' (JStr []),
                           summary_en := dict_get r ''summary_en'' (JStr []),
                           importance := imp\<rparr>)
           | Some c \<Rightarrow> (None, enriched r imp c item)))"
  by (simp add: merge_item_def enriched_def Let_def split: option.splits)


lemma merge_item_provenance: "provenance (snd (merge_item r item)) = provenance item"
  by (simp add: merge_item_cases provenance_def enriched_def split: option.splits)

lemma merge_loop_Cons_fst:
  "fst (merge_loop m i (x # xs)) =
     (case lookup_index m i of
        None \<Rightarrow> fst (merge_loop m (Suc i) xs)
      | Some r \<Rightarrow> (case fst (merge_item r x) of
                    Some e \<Rightarrow> Some e
                  | None \<Rightarrow> fst (merge_loop m (Suc i) xs)))"
  by (auto split: option.splits prod.splits)

lemma merge_loop_Cons_snd:
  "snd (merge_loop m i (x # xs)) =
     (case lookup_index m i of
        None \<Rightarrow> x # snd (merge_loop m (Suc i) xs)
      | Some r \<Rightarrow> (case fst (merge_item r x) of
                    Some e \<Rightarrow> snd (merge_item r x) # xs
                  | None \<Rightarrow> snd (merge_item r x) # snd (merge_loop m (Suc i) xs)))"
  by (auto split: option.splits prod.splits)

lemmas merge_loop_Cons = merge_loop_Cons_fst merge_loop_Cons_snd

lemma merge_loop_length: "length (snd (merge_loop m i xs)) = length xs"
  by (induction xs arbitrary: i) (auto simp: merge_loop_Cons simp del: merge_loop.simps(2) split: option.splits)

lemma merge_loop_nth:
  "j < length xs \<Longrightarrow>
   snd (merge_loop m i xs) ! j = xs ! j \<or>
   (\<exists>r. lookup_index m (i + j) = Some r \<and> snd (merge_loop m i xs) ! j = snd (merge_item r (xs ! j)))"
proof (induction xs arbitrary: i j)
  case Nil
  then show ?case by simp
next
  case (Cons x xs)
  show ?case
  proof (cases j)
    case 0
    then show ?thesis
      by (auto simp: merge_loop_Cons simp del: merge_loop.simps(2) split: option.splits)
  next
    case (Suc j')
    then have "j' < length xs" using Cons.prems by simp
    from Cons.IH[OF this, of "Suc i"] show ?thesis
      using Suc by (auto simp: merge_loop_Cons simp del: merge_loop.simps(2) split: option.splits)
  qed
qed

lemma merge_loop_nomatch:
  "j < length xs \<Longrightarrow> lookup_index m (i + j) = None \<Longrightarrow> snd (merge_loop m i xs) ! j = xs ! j"
  using merge_loop_nth[of j xs m i] by auto

lemma merge_loop_ok_nth:
  "fst (merge_loop m i xs) = None \<Longrightarrow> j < length xs \<Longrightarrow> lookup_index m (i + j) = Some r \<Longrightarrow>
   merge_item r (xs ! j) = (None, snd (merge_loop m i xs) ! j)"
proof (induction xs arbitrary: i j)
  case Nil
  then show ?case by simp
next
  case (Cons x xs)
  show ?case
  proof (cases j)
    case 0
    then show ?thesis using Cons.prems
      by (cases "merge_item r x")
         (auto simp: merge_loop_Cons simp del: merge_loop.simps(2) split: option.splits)
  next
    case (Suc j')
    then have j': "j' < length xs" and l: "lookup_index m (Suc i + j') = Some r"
      using Cons.prems by simp_all
    have "fst (merge_loop m (Suc i) xs) = None"
      using Cons.prems(1)
      by (auto simp: merge_loop_Cons simp del: merge_loop.simps(2) split: option.splits)
    from Cons.IH[OF this j' l] show ?thesis
      using Suc Cons.prems(1)
      by (auto simp: merge_loop_Cons simp del: merge_loop.simps(2) split: option.splits)
  qed
qed



lemma merge_loop_provenance:
  "map provenance (snd (merge_loop m i xs)) = map provenance xs"
proof (induction xs arbitrary: i)
  case Nil
  show ?case by simp
next
  case (Cons x xs)
  show ?case
    using Cons.IH[of "Suc i"] merge_item_provenance[of _ x]
    by (auto simp: merge_loop_Cons simp del: merge_loop.simps(2) split: option.splits)
qed

lemma parse_response_Some:
  "parse_response (Some j) items =
     (case build_result_map (as_results j) of
        Inl e \<Rightarrow> (Some e, items)
      | Inr m \<Rightarrow> merge_loop m 0 items)"
  by (simp add: parse_response_def)

lemma parse_response_length: "length (snd (parse_response d items)) = length items"
  by (cases d) (auto simp: parse_response_def merge_loop_length split: sum.splits)

lemma parse_response_provenance:
  "map provenance (snd (parse_response d items)) = map provenance items"
  by (cases d) (auto simp: parse_response_def merge_loop_provenance split: sum.splits)

lemma parse_response_nomatch:
  assumes "i < length items" and "\<not> (\<exists>r \<in> set (as_results j). result_has_id r i)"
  shows "snd (parse_response (Some j) items) ! i = items ! i"
proof (cases "build_result_map (as_results j)")
  case (Inl e)
  then show ?thesis by (simp add: parse_response_Some)
next
  case (Inr m)
  have "lookup_index m (0 + i) = None"
    using build_result_map_lookup[OF Inr, of i] assms(2) last_result_with_id_None by simp
  from merge_loop_nomatch[OF assms(1) this] show ?thesis
    by (simp add: parse_response_Some Inr)
qed

lemma parse_response_match:
  assumes ok: "fst (parse_response (Some j) items) = None"
    and i: "i < length items" and ex: "\<exists>r \<in> set (as_results j). result_has_id r i"
  shows "\<exists>kvs imp c. last_result_with_id (as_results j) i = Some kvs \<and>
           Importance_of (dict_get kvs ''importance'' (JStr ''medium'')) = Some imp \<and>
           Category_of (dict_get kvs ''category'' (JStr ''other'')) = Some c \<and>
           snd (parse_response (Some j) items) ! i = enriched kvs imp c (items ! i)"
proof (cases "build_result_map (as_results j)")
  case (Inl e)
  then show ?thesis using ok by (simp add: parse_response_Some)
next
  case (Inr m)
  from ex obtain kvs where l: "last_result_with_id (as_results j) i = Some kvs"
    using last_result_with_id_None[of "as_results j" i] by auto
  then have lk: "lookup_index m (0 + i) = Some kvs"
    using build_result_map_lookup[OF Inr, of i] by simp
  have okm: "fst (merge_loop m 0 items) = None" using ok by (simp add: parse_response_Some Inr)
  from merge_loop_ok_nth[OF okm i lk]
  have mi: "merge_item kvs (items ! i) = (None, snd (merge_loop m 0 items) ! i)" .
  then obtain imp c where
    "Importance_of (dict_get kvs ''importance'' (JStr ''medium'')) = Some imp"
    "Category_of (dict_get kvs ''category'' (JStr ''other'')) = Some c"
    "snd (merge_loop m 0 items) ! i = enriched kvs imp c (items ! i)"
    by (auto simp: merge_item_cases split: option.splits)
  then show ?thesis using l by (simp add: parse_response_Some Inr)
qed

text \<open>
  Claim C2, amended. For every batch and every decoded result list, the merge of
  \<^verbatim>\<open>_parse_response\<close> leaves as many items as the batch has, and an item whose batch
  index is the id of no result keeps all its fields, its importance and category among
  them. When the merge raises nothing, an item whose batch index \<open>i\<close> is the id of
  some result has \<open>summary_ja\<close>, \<open>summary_en\<close>, \<open>importance\<close>, \<open>category\<close> and
  \<open>tags\<close> overwritten from the last result with id \<open>i\<close> (a field that the result
  lacks by its default), and its other fields kept.
\<close>

theorem parse_response_merge:
  "length (snd (parse_response (Some j) items)) = length items
   \<and> (\<forall>i < length items.
        \<not> (\<exists>r \<in> set (as_results j). result_has_id r i) \<longrightarrow>
        snd (parse_response (Some j) items) ! i = items ! i)
   \<and> (fst (parse_response (Some j) items) = None \<longrightarrow>
        (\<forall>i < length items.
           (\<exists>r \<in> set (as_results j). result_has_id r i) \<longrightarrow>
           (\<exists>kvs imp c.
              last_result_with_id (as_results j) i = Some kvs \<and>
              Importance_of (dict_get kvs ''importance'' (JStr ''medium'')) = Some imp \<and>
              Category_of (dict_get kvs ''category'' (JStr ''other'')) = Some c \<and>
              snd (parse_response (Some j) items) ! i = enriched kvs imp c (items ! i))))"
  using parse_response_length parse_response_nomatch parse_response_match by blast

text \<open>
  A batch of four items and a response with the ids 0, 1 and 2: the first three items are
  overwritten, a missing field by its default, and the fourth is as it was.
\<close>

theorem parse_response_merge_witness:
  "parse_response
     (Some (JArr [JObj [(''id'', JInt 0), (''summary_ja'', JStr ''ja0''), (''summary_en'', JStr ''en0''),
                        (''importance'', JStr ''high''), (''category'', JStr ''release''),
                        (''tags'', JArr [JStr ''cli''])],
                  JObj [(''id'', JInt 1), (''importance'', JStr ''low'')],
                  JObj [(''id'', JInt 2), (''summary_ja'', JStr ''ja2''), (''category'', JStr ''bugfix'')]]))
     [parsed_item ''T0'' ''https://0'' ''tool'' (None :: unit option) [] (JObj []),
      parsed_item ''T1'' ''https://1'' ''tool'' None [] (JObj []),
      parsed_item ''T2'' ''https://2'' ''tool'' None [] (JObj []),
      parsed_item ''T3'' ''https://3'' ''tool'' None [] (JObj [])]
   = (None,
      [(parsed_item ''T0'' ''https://0'' ''tool'' None [] (JObj []))
         \<lparr>summary_ja := JStr ''ja0'', summary_en := JStr ''en0'', importance := HIGH,
          category := RELEASE, tags := JArr [JStr ''cli'']\<rparr>,
       (parsed_item ''T1'' ''https://1'' ''tool'' None [] (JObj []))\<lparr>importance := LOW\<rparr>,
       (parsed_item ''T2'' ''https://2'' ''tool'' None [] (JObj []))
         \<lparr>summary_ja := JStr ''ja2'', category := BUGFIX\<rparr>,
       parsed_item ''T3'' ''https://3'' ''tool'' None [] (JObj [])])"
  using parse_response_merge[of
      "JArr [JObj [(''id'', JInt 0), (''summary_ja'', JStr ''ja0''), (''summary_en'', JStr ''en0''),
                        (''importance'', JStr ''high''), (''category'', JStr ''release''),
                        (''tags'', JArr [JStr ''cli''])],
                  JObj [(''id'', JInt 1), (''importance'', JStr ''low'')],
                  JObj [(''id'', JInt 2), (''summary_ja'', JStr ''ja2''), (''category'', JStr ''bugfix'')]]"
      "[parsed_item ''T0'' ''https://0'' ''tool'' (None :: unit option) [] (JObj []),
      parsed_item ''T1'' ''https://1'' ''tool'' None [] (JObj []),
      parsed_item ''T2'' ''https://2'' ''tool'' None [] (JObj []),
      parsed_item ''T3'' ''https://3'' ''tool'' None [] (JObj [])]"]
  by (simp add: parse_response_def as_results_def lookup_index_def obj_get_def dict_get_def
        merge_item_def parsed_item_def)

text \<open>
  Two responses on which the merge raises. In the first a result has id 0 and another has
  no \<^verbatim>\<open>"id"\<close>: building the map raises \<^verbatim>\<open>KeyError\<close> and the item at index 0 keeps its
  empty summary. In the second the result with id 0 carries the importance
  \<^verbatim>\<open>"urgent"\<close> and a result has id 1: the loop stops at index 0 and the item at index 1
  keeps its empty summary.
\<close>

theorem parse_response_raising_counterexample:
  "result_has_id (JObj [(''id'', JInt 0), (''summary_ja'', JStr ''ja0'')]) 0
   \<and> parse_response
       (Some (JArr [JObj [(''id'', JInt 0), (''summary_ja'', JStr ''ja0'')],
                    JObj [(''summary_ja'', JStr ''no id'')]]))
       [parsed_item ''T0'' ''https://0'' ''tool'' (None :: unit option) [] (JObj [])]
     = (Some KeyError, [parsed_item ''T0'' ''https://0'' ''tool'' None [] (JObj [])])
   \<and> summary_ja (parsed_item ''T0'' ''https://0'' ''tool'' (None :: unit option) [] (JObj []))
       \<noteq> JStr ''ja0''
   \<and> result_has_id (JObj [(''id'', JInt 1), (''summary_ja'', JStr ''ja1'')]) 1
   \<and> parse_response
       (Some (JArr [JObj [(''id'', JInt 0), (''importance'', JStr ''urgent'')],
                    JObj [(''id'', JInt 1), (''summary_ja'', JStr ''ja1'')]]))
       [parsed_item ''T0'' ''https://0'' ''tool'' (None :: unit option) [] (JObj []),
        parsed_item ''T1'' ''https://1'' ''tool'' None [] (JObj [])]
     = (Some ValueError,
        [parsed_item ''T0'' ''https://0'' ''tool'' None [] (JObj []),
         parsed_item ''T1'' ''https://1'' ''tool'' None [] (JObj [])])
   \<and> summary_ja (parsed_item ''T1'' ''https://1'' ''tool'' (None :: unit option) [] (JObj []))
       \<noteq> JStr ''ja1''"
  by (simp add: parse_response_def as_results_def lookup_index_def obj_get_def dict_get_def
        merge_item_def parsed_item_def)





text \<open>
  Claim C6. A batch of two items and a response whose result 0 is well formed and whose
  result 1 carries the importance \<^verbatim>\<open>"urgent"\<close>. The enum constructor raises
  \<^verbatim>\<open>ValueError\<close> at the second item, the handler of \<^verbatim>\<open>_process_batch\<close> returns
  \<^verbatim>\<open>news_items\<close>: the first item comes back with its five fields overwritten, and the
  second with its two summaries overwritten and its importance, category and tags as they
  were. The batch is not returned as it was given.
\<close>

theorem process_batch_partial_enrichment:
  "process_batch scripted_request
     [ResponseText (Some (JArr
        [JObj [(''id'', JInt 0), (''summary_ja'', JStr ''ja0''), (''summary_en'', JStr ''en0''),
               (''importance'', JStr ''high''), (''category'', JStr ''release''),
               (''tags'', JArr [JStr ''cli''])],
         JObj [(''id'', JInt 1), (''summary_ja'', JStr ''ja1''), (''summary_en'', JStr ''en1''),
               (''importance'', JStr ''urgent''), (''category'', JStr ''feature'')]]))]
     [parsed_item ''T0'' ''https://0'' ''tool'' (None :: unit option) [] (JObj []),
      parsed_item ''T1'' ''https://1'' ''tool'' None [] (JObj [])]
   = ([(parsed_item ''T0'' ''https://0'' ''tool'' None [] (JObj []))
         \<lparr>summary_ja := JStr ''ja0'', summary_en := JStr ''en0'', importance := HIGH,
          category := RELEASE, tags := JArr [JStr ''cli'']\<rparr>,
       (parsed_item ''T1'' ''https://1'' ''tool'' None [] (JObj []))
         \<lparr>summary_ja := JStr ''ja1'', summary_en := JStr ''en1''\<rparr>], [])
   \<and> fst (parse_response (Some (JArr
        [JObj [(''id'', JInt 0), (''summary_ja'', JStr ''ja0''), (''summary_en'', JStr ''en0''),
               (''importance'', JStr ''high''), (''category'', JStr ''release''),
               (''tags'', JArr [JStr ''cli''])],
         JObj [(''id'', JInt 1), (''summary_ja'', JStr ''ja1''), (''summary_en'', JStr ''en1''),
               (''importance'', JStr ''urgent''), (''category'', JStr ''feature'')]]))
     [parsed_item ''T0'' ''https://0'' ''tool'' (None :: unit option) [] (JObj []),
      parsed_item ''T1'' ''https://1'' ''tool'' None [] (JObj [])]) = Some ValueError"
  by (simp add: process_batch_def batch_result_def scripted_request_def parse_response_def
        as_results_def lookup_index_def obj_get_def dict_get_def merge_item_def parsed_item_def)

lemma batch_result_provenance: "map provenance (batch_result resp b) = map provenance b"
  by (cases resp) (simp_all add: batch_result_def parse_response_provenance)

lemma batch_result_length: "length (batch_result resp b) = length b"
  by (cases resp) (simp_all add: batch_result_def parse_response_length)

lemma batch_result_failed:
  "resp = RequestFailed \<or> resp = ResponseText None \<Longrightarrow> batch_result resp b = b"
  by (auto simp: batch_result_def parse_response_def)

lemma batch_loop_log:
  "fst (batch_loop request xs i w acc) =
     acc @ concat (map (\<lambda>(b, resp). batch_result resp b) (batch_log request xs i w))"
proof (induction request xs i w acc rule: batch_loop.induct)
  case (1 request xs i w acc)
  show ?case
  proof (cases "i < length xs")
    case False
    then show ?thesis by (simp add: batch_loop.simps[of request xs i] batch_log.simps[of request xs i])
  next
    case True
    obtain resp w' where r: "request w (take 10 (drop i xs)) = (resp, w')"
      by (cases "request w (take 10 (drop i xs))")
    then have p: "process_batch request w (take 10 (drop i xs))
                  = (batch_result resp (take 10 (drop i xs)), w')"
      by (simp add: process_batch_def)
    from "1.IH"[OF True p[symmetric]] show ?thesis
      using True r p
      by (simp add: batch_loop.simps[of request xs i] batch_log.simps[of request xs i])
  qed
qed

lemma batch_log_concat: "concat (map fst (batch_log request xs i w)) = drop i xs"
proof (induction request xs i w rule: batch_log.induct)
  case (1 request xs i w)
  show ?case
  proof (cases "i < length xs")
    case False
    then show ?thesis by (simp add: batch_log.simps[of request xs i])
  next
    case True
    obtain resp w' where r: "request w (take 10 (drop i xs)) = (resp, w')"
      by (cases "request w (take 10 (drop i xs))")
    have "take 10 (drop i xs) @ drop (i + 10) xs = drop i xs"
      by (metis add.commute append_take_drop_id drop_drop)
    with "1.IH"[OF True r[symmetric]] show ?thesis
      using True r by (simp add: batch_log.simps[of request xs i])
  qed
qed

lemma batch_log_sizes:
  "(b, resp) \<in> set (batch_log request xs i w) \<Longrightarrow> b \<noteq> [] \<and> length b \<le> 10"
proof (induction request xs i w rule: batch_log.induct)
  case (1 request xs i w)
  show ?case
  proof (cases "i < length xs")
    case False
    then show ?thesis using "1.prems" by (simp add: batch_log.simps[of request xs i])
  next
    case True
    obtain resp' w' where r: "request w (take 10 (drop i xs)) = (resp', w')"
      by (cases "request w (take 10 (drop i xs))")
    from "1.prems" have "(b, resp) = (take 10 (drop i xs), resp')
        \<or> (b, resp) \<in> set (batch_log request xs (i + 10) w')"
      using True r by (simp add: batch_log.simps[of request xs i])
    then show ?thesis
    proof
      assume "(b, resp) = (take 10 (drop i xs), resp')"
      then show ?thesis using True by auto
    next
      assume "(b, resp) \<in> set (batch_log request xs (i + 10) w')"
      with "1.IH"[OF True r[symmetric]] show ?thesis by simp
    qed
  qed
qed

lemma summarize_as_log:
  "fst (summarize_and_categorize request w items) =
     concat (map (\<lambda>(b, resp). batch_result resp b) (batch_log request items 0 w))"
proof (cases "items = []")
  case True
  then show ?thesis
    by (simp add: summarize_and_categorize_def batch_log.simps[of request "[]" 0])
next
  case False
  then show ?thesis
    using batch_loop_log[of request items 0 w "[]"] by (simp add: summarize_and_categorize_def)
qed

text \<open>
  Claim C5. The list that \<^verbatim>\<open>summarize_and_categorize\<close> returns is the concatenation, in
  order, of what \<^verbatim>\<open>_process_batch\<close> returns for each batch, the batches being the
  consecutive pieces of the input. A batch whose request fails, or whose response text
  is no JSON, is returned as it was given, every field of every item unchanged; the
  batches after it are processed all the same.
\<close>

theorem summarize_failure_isolated:
  "let batches = batch_log request items 0 w;
       out = fst (summarize_and_categorize request w items)
   in concat (map fst batches) = items
      \<and> out = concat (map (\<lambda>(b, resp). batch_result resp b) batches)
      \<and> (\<forall>(b, resp) \<in> set batches.
            resp = RequestFailed \<or> resp = ResponseText None \<longrightarrow> batch_result resp b = b)"
  unfolding Let_def
  using batch_log_concat[of request items 0 w] summarize_as_log[of request w items]
        batch_result_failed
  by auto

text \<open>
  Twenty-one items in three batches: the request fails for the first, the response to the
  second is no JSON, and the response to the third gives an importance to its item 0.
  The first twenty items come back unchanged and the last one enriched.
\<close>

theorem summarize_failure_isolated_witness:
  "fst (summarize_and_categorize scripted_request
         [RequestFailed, ResponseText None,
          ResponseText (Some (JArr [JObj [(''id'', JInt 0), (''importance'', JStr ''high'')]]))]
         (sample_items 21))
   = sample_items 20 @ [(sample_items 21 ! 20)\<lparr>importance := HIGH\<rparr>]"
  using summarize_failure_isolated[of scripted_request "sample_items 21"
         "[RequestFailed, ResponseText None,
          ResponseText (Some (JArr [JObj [(''id'', JInt 0), (''importance'', JStr ''high'')]]))]"]
  by (simp add: sample_items_def upt_rec summarize_and_categorize_def batch_loop.simps
        process_batch_def batch_result_def scripted_request_def parse_response_def
        as_results_def lookup_index_def obj_get_def dict_get_def merge_item_def parsed_item_def)

lemma map_provenance_concat:
  "map provenance (concat (map (\<lambda>(b, resp). batch_result resp b) batches)) =
   map provenance (concat (map fst batches))"
  by (induction batches) (auto simp: batch_result_provenance)

lemma summarize_provenance:
  "map provenance (fst (summarize_and_categorize request w items)) = map provenance items"
  using map_provenance_concat[of "batch_log request items 0 w"]
  by (simp add: summarize_as_log batch_log_concat)

lemma provenance_fields:
  assumes "map provenance xs = map provenance ys"
  shows "map title xs = map title ys \<and> map url xs = map url ys \<and>
     map tool_name xs = map tool_name ys \<and> map source xs = map source ys \<and>
     map content xs = map content ys \<and> map published_at xs = map published_at ys \<and>
     map raw_data xs = map raw_data ys"
proof -
  have len: "length xs = length ys" using assms by (metis length_map)
  have nth: "provenance (xs ! i) = provenance (ys ! i)" if "i < length xs" for i
    using assms that len by (metis nth_map)
  have "\<forall>i < length xs.
          title (xs ! i) = title (ys ! i) \<and> url (xs ! i) = url (ys ! i) \<and>
          tool_name (xs ! i) = tool_name (ys ! i) \<and> source (xs ! i) = source (ys ! i) \<and>
          content (xs ! i) = content (ys ! i) \<and> published_at (xs ! i) = published_at (ys ! i) \<and>
          raw_data (xs ! i) = raw_data (ys ! i)"
    using nth by (simp add: provenance_def)
  then show ?thesis using len by (auto intro!: nth_equalityI)
qed

text \<open>
  Claim C7. For every input list, \<^verbatim>\<open>summarize_and_categorize\<close> returns a list of the same
  length whose items have, position by position, the \<open>title\<close>, \<open>url\<close>,
  \<open>tool_name\<close>, \<open>source\<close>, \<open>content\<close>, \<open>published_at\<close> and \<open>raw_data\<close> of the
  input items. The input is cut into consecutive non-empty batches of at most 10 items,
  each batch gives a result of its own length, and the output is the concatenation of
  these results.
\<close>

theorem summarize_frame:
  "let out = fst (summarize_and_categorize request w items);
       batches = batch_log request items 0 w
   in length out = length items
      \<and> map title out = map title items \<and> map url out = map url items
      \<and> map tool_name out = map tool_name items \<and> map source out = map source items
      \<and> map content out = map content items \<and> map published_at out = map published_at items
      \<and> map raw_data out = map raw_data items
      \<and> concat (map fst batches) = items
      \<and> (\<forall>(b, resp) \<in> set batches. b \<noteq> [] \<and> length b \<le> 10)
      \<and> out = concat (map (\<lambda>(b, resp). batch_result resp b) batches)
      \<and> (\<forall>(b, resp) \<in> set batches. length (batch_result resp b) = length b)"
proof -
  let ?out = "fst (summarize_and_categorize request w items)"
  have p: "map provenance ?out = map provenance items" by (rule summarize_provenance)
  then have "length (map provenance ?out) = length (map provenance items)" by simp
  then have l: "length ?out = length items" by simp
  show ?thesis unfolding Let_def
    using provenance_fields[OF p] l batch_log_concat[of request items 0 w]
      summarize_as_log[of request w items] batch_log_sizes[of _ _ request items 0 w]
      batch_result_length
    by auto
qed

text \<open>
  Twelve items in batches of 10 and 2; the responses enrich the first item of the first
  batch and the second item of the second.
\<close>

theorem summarize_frame_witness:
  "fst (summarize_and_categorize scripted_request
         [ResponseText (Some (JArr
            [JObj [(''id'', JInt 0), (''summary_ja'', JStr ''ja''), (''summary_en'', JStr ''en''),
                   (''importance'', JStr ''critical''), (''category'', JStr ''security''),
                   (''tags'', JArr [JStr ''cve''])]])),
          ResponseText (Some (JArr [JObj [(''id'', JInt 1), (''category'', JStr ''bugfix'')]]))]
         (sample_items 12))
   = [(sample_items 12 ! 0)
        \<lparr>summary_ja := JStr ''ja'', summary_en := JStr ''en'', importance := CRITICAL,
         category := SECURITY, tags := JArr [JStr ''cve'']\<rparr>]
     @ take 10 (drop 1 (sample_items 12))
     @ [(sample_items 12 ! 11)\<lparr>category := BUGFIX\<rparr>]
   \<and> map (\<lambda>(b, resp). length b)
         (batch_log scripted_request (sample_items 12) 0
            [ResponseText (Some (JArr
               [JObj [(''id'', JInt 0), (''summary_ja'', JStr ''ja''), (''summary_en'', JStr ''en''),
                      (''importance'', JStr ''critical''), (''category'', JStr ''security''),
                      (''tags'', JArr [JStr ''cve''])]])),
             ResponseText (Some (JArr [JObj [(''id'', JInt 1), (''category'', JStr ''bugfix'')]]))])
     = [10, 2]"
  using summarize_frame[of scripted_request
         "[ResponseText (Some (JArr
            [JObj [(''id'', JInt 0), (''summary_ja'', JStr ''ja''), (''summary_en'', JStr ''en''),
                   (''importance'', JStr ''critical''), (''category'', JStr ''security''),
                   (''tags'', JArr [JStr ''cve''])]])),
          ResponseText (Some (JArr [JObj [(''id'', JInt 1), (''category'', JStr ''bugfix'')]]))]"
         "sample_items 12"]
  by (simp add: sample_items_def upt_rec summarize_and_categorize_def batch_loop.simps
        batch_log.simps
        process_batch_def batch_result_def scripted_request_def parse_response_def
        as_results_def lookup_index_def obj_get_def dict_get_def merge_item_def parsed_item_def)

section \<open>Dictionary form: the round trip\<close>

lemma Importance_of_value: "Importance_of (JStr (Importance_value x)) = Some x"
  by (cases x) simp_all

lemma Category_of_value: "Category_of (JStr (Category_value x)) = Some x"
  by (cases x) simp_all

lemma to_dict_get:
  "obj_get (to_dict isoformat item) ''published_at''
     = Some (case published_at item of Some d \<Rightarrow> JStr (isoformat d) | None \<Rightarrow> JNull)"
  "obj_get (to_dict isoformat item) ''title'' = Some (JStr (title item))"
  "obj_get (to_dict isoformat item) ''url'' = Some (JStr (url item))"
  "obj_get (to_dict isoformat item) ''tool_name'' = Some (JStr (tool_name item))"
  "obj_get (to_dict isoformat item) ''source'' = Some (JStr (source item))"
  "obj_get (to_dict isoformat item) ''content'' = Some (JStr (content item))"
  "obj_get (to_dict isoformat item) ''summary_ja'' = Some (summary_ja item)"
  "obj_get (to_dict isoformat item) ''summary_en'' = Some (summary_en item)"
  "obj_get (to_dict isoformat item) ''importance'' = Some (JStr (Importance_value (importance item)))"
  "obj_get (to_dict isoformat item) ''category'' = Some (JStr (Category_value (category item)))"
  "obj_get (to_dict isoformat item) ''tags'' = Some (tags item)"
  by (simp_all add: obj_get_def to_dict_def)

lemma from_dict_rest:
  "from_dict fromisoformat (to_dict isoformat item) =
     bind_exn
       (case published_at item of
          None \<Rightarrow> Inr None
        | Some d \<Rightarrow>
            (if isoformat d = [] then Inr None
             else (case fromisoformat (isoformat d) of
                     Inl e \<Rightarrow> Inl (Raised e)
                   | Inr d' \<Rightarrow> Inr (Some d'))))
       (\<lambda>p. Inr (item\<lparr>published_at := p, raw_data := JObj []\<rparr>))"
proof -
  have pub: "(case obj_get (to_dict isoformat item) ''published_at'' of
          None \<Rightarrow> Inr None
        | Some v \<Rightarrow>
            (if truthy v
             then (case v of
                     JStr s \<Rightarrow>
                       (case fromisoformat s of
                          Inl e \<Rightarrow> Inl (Raised e)
                        | Inr d \<Rightarrow> Inr (Some d))
                   | _ \<Rightarrow> Inl (Raised TypeError))
             else Inr None))
     = (case published_at item of
          None \<Rightarrow> Inr None
        | Some d \<Rightarrow>
            (if isoformat d = [] then Inr None
             else (case fromisoformat (isoformat d) of
                     Inl e \<Rightarrow> Inl (Raised e)
                   | Inr d' \<Rightarrow> Inr (Some d'))))"
    by (cases "published_at item") (simp_all add: to_dict_get)
  show ?thesis
    unfolding from_dict_def pub
    by (simp add: to_dict_get dict_get_def subscript_def raised_def bind_exn_def
        enum_of_def Importance_of_value Category_of_value
        del: Importance_of.simps Category_of.simps split: sum.splits)
qed

text \<open>
  Claim C8. For every item, \<^verbatim>\<open>from_dict\<close> applied to the dictionary that \<^verbatim>\<open>to_dict\<close>
  makes of it returns an item with the same importance and the same category. The date
  library enters through one assumption: \<^verbatim>\<open>fromisoformat\<close> accepts what \<^verbatim>\<open>isoformat\<close>
  writes for the item's date, if it has one.
\<close>

theorem from_dict_to_dict_enums:
  assumes "\<forall>d. published_at (item :: 'd NewsItem) = Some d \<longrightarrow>
             (\<exists>d' :: 'd. fromisoformat (isoformat d) = Inr d')"
  shows "\<exists>item' :: 'd NewsItem. from_dict fromisoformat (to_dict isoformat item) = Inr item'
           \<and> importance item' = importance item \<and> category item' = category item"
proof (cases "published_at item")
  case None
  then show ?thesis by (simp add: from_dict_rest bind_exn_def)
next
  case (Some d)
  with assms obtain d' where "fromisoformat (isoformat d) = Inr d'" by auto
  with Some show ?thesis by (simp add: from_dict_rest bind_exn_def)
qed

text \<open>
  An item of importance \<open>CRITICAL\<close> and category \<open>SECURITY\<close> with a date, for a date type
  of ten-character strings: the round trip gives the item back, \<^verbatim>\<open>raw_data\<close> reset to its
  default.
\<close>

theorem from_dict_to_dict_enums_witness:
  "from_dict (\<lambda>s. if length s = 10 then Inr s else Inl ValueError)
     (to_dict (\<lambda>d. d)
        ((parsed_item ''Release 2.0'' ''https://example.com/r2'' ''tool'' (Some ''2025-01-15'')
            ''snippet'' (JObj [(''k'', JNull)]))
           \<lparr>importance := CRITICAL, category := SECURITY\<rparr>))
   = Inr ((parsed_item ''Release 2.0'' ''https://example.com/r2'' ''tool'' (Some ''2025-01-15'')
            ''snippet'' (JObj []))
           \<lparr>importance := CRITICAL, category := SECURITY\<rparr>)"
  using from_dict_to_dict_enums[of
      "(parsed_item ''Release 2.0'' ''https://example.com/r2'' ''tool'' (Some ''2025-01-15'')
            ''snippet'' (JObj [(''k'', JNull)]))
           \<lparr>importance := CRITICAL, category := SECURITY\<rparr>"
      "\<lambda>s. if length s = 10 then Inr s else Inl ValueError" "\<lambda>d. d"]
  by (simp add: from_dict_def to_dict_def obj_get_def dict_get_def subscript_def raised_def
        bind_exn_def enum_of_def parsed_item_def)

section \<open>Report renderer: grouping\<close>

lemma keep_first_snoc:
  "keep_first f (xs @ [x]) =
     (if f x \<in> f ` set xs then keep_first f xs else keep_first f xs @ [x])"
proof -
  let ?P = "\<lambda>i. f ((xs @ [x]) ! i) \<notin> f ` set (take i (xs @ [x]))"
  have upt: "[0..<length (xs @ [x])] = [0..<length xs] @ [length xs]" by simp
  have step: "keep_first f (xs @ [x]) =
      map ((!) (xs @ [x])) (filter ?P [0..<length xs])
      @ map ((!) (xs @ [x])) (filter ?P [length xs])"
    unfolding keep_first_def upt filter_append map_append by (rule refl)
  have flt: "filter ?P [0..<length xs]
             = filter (\<lambda>i. f (xs ! i) \<notin> f ` set (take i xs)) [0..<length xs]"
    by (rule filter_cong) (auto simp: nth_append)
  have mp: "map ((!) (xs @ [x])) (filter (\<lambda>i. f (xs ! i) \<notin> f ` set (take i xs)) [0..<length xs])
            = map ((!) xs) (filter (\<lambda>i. f (xs ! i) \<notin> f ` set (take i xs)) [0..<length xs])"
    by (rule map_cong) (auto simp: nth_append)
  have p1: "map ((!) (xs @ [x])) (filter ?P [0..<length xs]) = keep_first f xs"
    unfolding flt mp keep_first_def by (rule refl)
  have p2: "map ((!) (xs @ [x])) (filter ?P [length xs])
            = (if f x \<in> f ` set xs then [] else [x])"
    by simp
  show ?thesis unfolding step p1 p2 by simp
qed

lemma keep_first_Nil: "keep_first f [] = []"
  by (simp add: keep_first_def)

lemma keep_first_keys: "set (map f (keep_first f xs)) = f ` set xs"
  by (induction xs rule: rev_induct) (auto simp: keep_first_snoc keep_first_Nil)

lemma keep_first_keys_distinct: "distinct (map f (keep_first f xs))"
proof (induction xs rule: rev_induct)
  case Nil
  show ?case by (simp add: keep_first_Nil)
next
  case (snoc x xs)
  then show ?case using keep_first_keys[of f xs] by (auto simp: keep_first_snoc)
qed

lemma group_append_keys:
  "distinct ks \<Longrightarrow>
   group_append (map (\<lambda>k. (k, g k)) ks) k0 x =
     (if k0 \<in> set ks then map (\<lambda>k. (k, if k = k0 then g k @ [x] else g k)) ks
      else map (\<lambda>k. (k, g k)) ks @ [(k0, [x])])"
  by (induction ks) auto

lemma group_append_groups_of:
  "group_append (groups_of pre) (tool_name x) x = groups_of (pre @ [x])"
proof (cases "tool_name x \<in> tool_name ` set pre")
  case True
  then show ?thesis
    using group_append_keys[OF keep_first_keys_distinct[of tool_name pre],
        of "\<lambda>k. filter (\<lambda>item. tool_name item = k) pre" "tool_name x" x]
      keep_first_keys[of tool_name pre]
    by (auto simp: groups_of_def keep_first_snoc)
next
  case False
  then have "filter (\<lambda>item. tool_name item = tool_name x) pre = []"
    by (fastforce simp: filter_empty_conv image_iff)
  moreover have "\<forall>k \<in> set (map tool_name (keep_first tool_name pre)). tool_name x \<noteq> k"
    using False keep_first_keys[of tool_name pre] by auto
  ultimately show ?thesis
    using False group_append_keys[OF keep_first_keys_distinct[of tool_name pre],
        of "\<lambda>k. filter (\<lambda>item. tool_name item = k) pre" "tool_name x" x]
      keep_first_keys[of tool_name pre]
    by (auto simp: groups_of_def keep_first_snoc)
qed

lemma group_loop_groups_of: "group_loop xs (groups_of pre) = groups_of (pre @ xs)"
proof (induction xs arbitrary: pre)
  case Nil
  show ?case by simp
next
  case (Cons x xs)
  show ?case using Cons.IH[of "pre @ [x]"] by (simp add: group_append_groups_of)
qed

text \<open>
  Claim C9. For every item list, the groups that \<^verbatim>\<open>generate_report\<close> builds are one per
  tool name, in the order of the first occurrence of each name in the list, and the
  group of a name holds the items of that name in their order in the list. No name has
  two groups.
\<close>

theorem news_by_tool_stable:
  "news_by_tool items =
     map (\<lambda>k. (k, filter (\<lambda>item. tool_name item = k) items))
       (map tool_name (keep_first tool_name items))
   \<and> distinct (map fst (news_by_tool items))"
proof -
  have "news_by_tool items = groups_of items"
    using group_loop_groups_of[of items "[]"]
    by (simp add: news_by_tool_def groups_of_def keep_first_Nil)
  then show ?thesis
    using keep_first_keys_distinct[of tool_name items]
    by (simp add: groups_of_def comp_def)
qed

text \<open>
  Five items of three tools, interleaved: the groups follow the first occurrences and
  each keeps the order of its items.
\<close>

theorem news_by_tool_stable_witness:
  "news_by_tool
     [parsed_item ''a1'' ''https://1'' ''Claude Code'' (None :: unit option) [] (JObj []),
      parsed_item ''b1'' ''https://2'' ''Gemini CLI'' None [] (JObj []),
      parsed_item ''a2'' ''https://3'' ''Claude Code'' None [] (JObj []),
      parsed_item ''c1'' ''https://4'' ''Codex'' None [] (JObj []),
      parsed_item ''b2'' ''https://5'' ''Gemini CLI'' None [] (JObj [])]
   = [(''Claude Code'',
        [parsed_item ''a1'' ''https://1'' ''Claude Code'' None [] (JObj []),
         parsed_item ''a2'' ''https://3'' ''Claude Code'' None [] (JObj [])]),
      (''Gemini CLI'',
        [parsed_item ''b1'' ''https://2'' ''Gemini CLI'' None [] (JObj []),
         parsed_item ''b2'' ''https://5'' ''Gemini CLI'' None [] (JObj [])]),
      (''Codex'', [parsed_item ''c1'' ''https://4'' ''Codex'' None [] (JObj [])])]"
  using news_by_tool_stable[of
     "[parsed_item ''a1'' ''https://1'' ''Claude Code'' (None :: unit option) [] (JObj []),
      parsed_item ''b1'' ''https://2'' ''Gemini CLI'' None [] (JObj []),
      parsed_item ''a2'' ''https://3'' ''Claude Code'' None [] (JObj []),
      parsed_item ''c1'' ''https://4'' ''Codex'' None [] (JObj []),
      parsed_item ''b2'' ''https://5'' ''Gemini CLI'' None [] (JObj [])]"]
  by (simp add: news_by_tool_def parsed_item_def)

end
